theory Spec2Isabelle
  imports Main "HOL-Library.AList"
begin

section \<open>Data model of the private-app user token manager\<close>

text \<open>
  Modelled from the spec: the declaration of \<^verbatim>\<open>PrivateAppUserTokenResponse\<close>
  (\<^verbatim>\<open>api/privateAppUserToken\<close>) is not among the sources. It is the spec's token
  record, a token value with its scope set and its expiry timestamp, under the field
  names the manager reads them by. \<open>expiresAt\<close> is the instant
  \<^verbatim>\<open>moment.utc(expiresAt)\<close> denotes, in milliseconds since the epoch.
\<close>

record PrivateAppUserTokenResponse =
  userTokenKey :: string
  expiresAt :: int
  scopeGroups :: "string list"

text \<open>
  Everything that can be thrown on the paths modelled here. The first three constructors
  are rejections coming from collaborators (an axios error with its optional response
  status, another \<^verbatim>\<open>Error\<close> instance, a thrown value that is not an \<^verbatim>\<open>Error\<close>, with
  its truthiness); the others are the errors \<^verbatim>\<open>throwErrorWithMessage\<close> builds, named by
  their message key, with the interpolation values and the optional cause.
\<close>

datatype err =
    AxiosError "nat option"
  | OtherError string
  | NonError bool
  | NoScopes int
  | RefreshFailed int int
  | ApiError int int detail "err option"
  | WithAuthError int
  | WithOauthError int
and detail =
    UnknownError
  | AxiosContextMessage err
  | ErrorMessage err

fun isAxiosError :: "err \<Rightarrow> bool" where
  "isAxiosError (AxiosError _) = True"
| "isAxiosError _ = False"

fun instanceofError :: "err \<Rightarrow> bool" where
  "instanceofError (NonError _) = False"
| "instanceofError _ = True"

fun truthy :: "err \<Rightarrow> bool" where
  "truthy (NonError b) = b"
| "truthy _ = True"

text \<open>\<^verbatim>\<open>err.response?.status == 404\<close>, asked of an axios error.\<close>

fun status404 :: "err \<Rightarrow> bool" where
  "status404 (AxiosError (Some st)) = (st = 404)"
| "status404 _ = False"

text \<open>
  \<^verbatim>\<open>genericThrowErrorWithMessage\<close> attaches the cause only when it is truthy.
\<close>

definition throwApiError :: "int \<Rightarrow> int \<Rightarrow> detail \<Rightarrow> err option \<Rightarrow> err" where
  "throwApiError acc appId messageDetail cause =
     ApiError acc appId messageDetail
       (case cause of None \<Rightarrow> None | Some c \<Rightarrow> if truthy c then Some c else None)"

subsection \<open>The network and the clock\<close>

text \<open>
  The endpoints (\<^verbatim>\<open>api/privateAppUserToken\<close>, \<^verbatim>\<open>lib/personalAccessKey\<close>) are
  collaborators outside the manager and not among the sources: they are parameters. Each
  request is recorded in the order it is issued; the answer to a request may depend on how
  many requests came before it (the first argument of every endpoint below), so that a
  remote side with state of its own is covered. A request is answered by a rejection or
  a value; create and update may answer with no token (\<^verbatim>\<open>undefined\<close> or
  \<^verbatim>\<open>null\<close>), which the manager tests for. \<open>latency\<close> is the time the request with
  that number takes: awaiting it moves the clock.
\<close>

datatype request =
    Fetch int int
  | Create int int "string list"
  | Update int int string "string list"
  | ScopeCheck int

record net =
  fetchPrivateAppUserToken :: "nat \<Rightarrow> int \<Rightarrow> int \<Rightarrow> err + PrivateAppUserTokenResponse"
  createPrivateAppUserToken ::
    "nat \<Rightarrow> int \<Rightarrow> int \<Rightarrow> string list \<Rightarrow> err + PrivateAppUserTokenResponse option"
  updatePrivateAppUserToken ::
    "nat \<Rightarrow> int \<Rightarrow> int \<Rightarrow> string \<Rightarrow> string list \<Rightarrow> err + PrivateAppUserTokenResponse option"
  scopeGroupsForPersonalAccessKey :: "nat \<Rightarrow> int \<Rightarrow> err + string list"
  latency :: "nat \<Rightarrow> nat"

text \<open>
  The callback \<^verbatim>\<open>() => this.refreshToken(appId, token.userTokenKey, scopeGroups)\<close>
  handed to \<^verbatim>\<open>setInterval\<close>, as the values it closes over, with the interval's delay.
\<close>

datatype interval =
  Interval (iv_appId: int) (iv_userTokenKey: string) (iv_scopeGroups: "string list") (iv_delay: int)

text \<open>
  The manager object (\<open>accountId\<close>, \<open>tokenMap\<close>, \<open>tokenMapIntervalId\<close>, \<open>enabled\<close>)
  together with what it acts on: the runtime's table of live intervals, the next timer
  handle, the requests issued so far and the clock (\<^verbatim>\<open>moment.utc()\<close>, in
  milliseconds). A \<^verbatim>\<open>Map\<close> is an association list in insertion order.
\<close>

record world =
  accountId :: int
  tokenMap :: "(int \<times> PrivateAppUserTokenResponse) list"
  tokenMapIntervalId :: "(int \<times> nat) list"
  enabled :: bool
  intervals :: "(nat \<times> interval) list"
  nextTimeoutId :: nat
  calls :: "request list"
  now :: int

definition USER_TOKEN_READ :: string where
  "USER_TOKEN_READ = ''developer.private_app.temporary_token.read''"

definition USER_TOKEN_WRITE :: string where
  "USER_TOKEN_WRITE = ''developer.private_app.temporary_token.write''"

definition constructor :: "int \<Rightarrow> int \<Rightarrow> world" where
  "constructor acc t0 =
     \<lparr>accountId = acc, tokenMap = [], tokenMapIntervalId = [], enabled = False,
      intervals = [], nextTimeoutId = 0, calls = [], now = t0\<rparr>"

definition await :: "net \<Rightarrow> world \<Rightarrow> request \<Rightarrow> world" where
  "await n w r =
     w\<lparr>calls := calls w @ [r], now := now w + int (latency n (length (calls w)))\<rparr>"

definition clearInterval :: "nat \<Rightarrow> world \<Rightarrow> world" where
  "clearInterval h w = w\<lparr>intervals := filter (\<lambda>p. fst p \<noteq> h) (intervals w)\<rparr>"

definition setInterval :: "interval \<Rightarrow> world \<Rightarrow> nat \<times> world" where
  "setInterval cb w =
     (nextTimeoutId w,
      w\<lparr>intervals := intervals w @ [(nextTimeoutId w, cb)],
        nextTimeoutId := Suc (nextTimeoutId w)\<rparr>)"

section \<open>PrivateAppUserTokenManager\<close>

definition init :: "net \<Rightarrow> world \<Rightarrow> (err + unit) \<times> world" where
  "init n w =
     (let w1 = await n w (ScopeCheck (accountId w)) in
      case scopeGroupsForPersonalAccessKey n (length (calls w)) (accountId w) of
        Inl e \<Rightarrow> (Inl e, w1)
      | Inr granted \<Rightarrow>
          if USER_TOKEN_READ \<notin> set granted \<or> USER_TOKEN_WRITE \<notin> set granted
          then (Inl (NoScopes (accountId w)), w1)
          else (Inr (), w1\<lparr>enabled := True\<rparr>))"

definition cleanup :: "world \<Rightarrow> world" where
  "cleanup w =
     (fold clearInterval (map snd (tokenMapIntervalId w)) w)
       \<lparr>tokenMapIntervalId := [], tokenMap := []\<rparr>"

definition isEnabled :: "world \<Rightarrow> bool" where
  "isEnabled w = enabled w"

definition doesTokenHaveAllScopes ::
  "PrivateAppUserTokenResponse option \<Rightarrow> string list \<Rightarrow> bool" where
  "doesTokenHaveAllScopes token requestedScopes =
     (case token of
        None \<Rightarrow> False
      | Some t \<Rightarrow> list_all (\<lambda>scopeGroup. scopeGroup \<in> set (scopeGroups t)) requestedScopes)"

definition getExistingToken ::
  "net \<Rightarrow> world \<Rightarrow> int \<Rightarrow> (err + PrivateAppUserTokenResponse option) \<times> world" where
  "getExistingToken n w appId =
     (let w1 = await n w (Fetch (accountId w) appId) in
      case fetchPrivateAppUserToken n (length (calls w)) (accountId w) appId of
        Inr t \<Rightarrow> (Inr (Some t), w1)
      | Inl e \<Rightarrow> if isAxiosError e \<and> status404 e then (Inr None, w1) else (Inl e, w1))"

definition refreshDelayMillis :: "int \<Rightarrow> PrivateAppUserTokenResponse \<Rightarrow> int" where
  "refreshDelayMillis t token = max (expiresAt token - 300000 - t) 0"

definition setCacheAndRefresh ::
  "world \<Rightarrow> int \<Rightarrow> PrivateAppUserTokenResponse option \<Rightarrow> string list \<Rightarrow> (err + unit) \<times> world" where
  "setCacheAndRefresh w appId token sgs =
     (case token of
        None \<Rightarrow> (Inl (RefreshFailed (accountId w) appId), w)
      | Some t \<Rightarrow>
          (let w1 = w\<lparr>tokenMap := AList.update appId t (tokenMap w)\<rparr>;
               w2 = (case map_of (tokenMapIntervalId w1) appId of
                       Some h \<Rightarrow> clearInterval h w1
                     | None \<Rightarrow> w1);
               (h, w3) = setInterval
                           (Interval appId (userTokenKey t) sgs (refreshDelayMillis (now w2) t)) w2
           in (Inr (), w3\<lparr>tokenMapIntervalId := AList.update appId h (tokenMapIntervalId w3)\<rparr>)))"

definition createOrGetActiveToken ::
  "net \<Rightarrow> world \<Rightarrow> int \<Rightarrow> string list \<Rightarrow> (err + PrivateAppUserTokenResponse option) \<times> world" where
  "createOrGetActiveToken n w appId sgs =
     (case getExistingToken n w appId of
        (Inl e, w1) \<Rightarrow> (Inl e, w1)
      | (Inr None, w1) \<Rightarrow>
          (createPrivateAppUserToken n (length (calls w1)) (accountId w1) appId sgs,
           await n w1 (Create (accountId w1) appId sgs))
      | (Inr (Some maybeToken), w1) \<Rightarrow>
          if now w1 + 300000 > expiresAt maybeToken
             \<or> \<not> doesTokenHaveAllScopes (Some maybeToken) sgs
          then (updatePrivateAppUserToken n (length (calls w1)) (accountId w1) appId
                  (userTokenKey maybeToken) sgs,
                await n w1 (Update (accountId w1) appId (userTokenKey maybeToken) sgs))
          else (Inr (Some maybeToken), w1))"

text \<open>The \<^verbatim>\<open>catch\<close> block of \<^verbatim>\<open>getPrivateAppToken\<close>.\<close>

definition wrapApiError :: "int \<Rightarrow> int \<Rightarrow> err \<Rightarrow> err" where
  "wrapApiError acc appId e =
     throwApiError acc appId
       (if isAxiosError e then AxiosContextMessage e
        else if instanceofError e then ErrorMessage e
        else UnknownError)
       (if isAxiosError e then None else Some e)"

definition getPrivateAppToken ::
  "net \<Rightarrow> world \<Rightarrow> int \<Rightarrow> string list \<Rightarrow> (err + string option) \<times> world" where
  "getPrivateAppToken n w appId sgs =
     (if \<not> enabled w then (Inr None, w)
      else if map_of (tokenMap w) appId \<noteq> None
              \<and> doesTokenHaveAllScopes (map_of (tokenMap w) appId) sgs
      then (Inr (map_option userTokenKey (map_of (tokenMap w) appId)), w)
      else
        (case createOrGetActiveToken n w appId sgs of
           (Inl e, w1) \<Rightarrow> (Inl (wrapApiError (accountId w1) appId e), w1)
         | (Inr token, w1) \<Rightarrow>
             (case setCacheAndRefresh w1 appId token sgs of
                (Inl e, w2) \<Rightarrow> (Inl (wrapApiError (accountId w2) appId e), w2)
              | (Inr _, w2) \<Rightarrow> (Inr (map_option userTokenKey token), w2))))"

text \<open>
  \<^verbatim>\<open>refreshToken\<close> suspends once, at the update request. \<open>refreshToken_resume\<close> is
  what runs when the request is answered, on the world as it is at that moment.
\<close>

definition refreshToken_resume ::
  "world \<Rightarrow> int \<Rightarrow> string list \<Rightarrow> err + PrivateAppUserTokenResponse option \<Rightarrow> (err + unit) \<times> world" where
  "refreshToken_resume w appId sgs answer =
     (case answer of
        Inl e \<Rightarrow> (Inl e, w)
      | Inr None \<Rightarrow> (Inl (RefreshFailed (accountId w) appId), w)
      | Inr (Some newToken) \<Rightarrow> setCacheAndRefresh w appId (Some newToken) sgs)"

definition refreshToken ::
  "net \<Rightarrow> world \<Rightarrow> int \<Rightarrow> string \<Rightarrow> string list \<Rightarrow> (err + unit) \<times> world" where
  "refreshToken n w appId key sgs =
     refreshToken_resume (await n w (Update (accountId w) appId key sgs)) appId sgs
       (updatePrivateAppUserToken n (length (calls w)) (accountId w) appId key sgs)"

text \<open>The runtime firing the interval with handle \<open>h\<close>; a cleared handle never fires.\<close>

definition fire :: "net \<Rightarrow> world \<Rightarrow> nat \<Rightarrow> (err + unit) \<times> world" where
  "fire n w h =
     (case map_of (intervals w) h of
        None \<Rightarrow> (Inr (), w)
      | Some cb \<Rightarrow> refreshToken n w (iv_appId cb) (iv_userTokenKey cb) (iv_scopeGroups cb))"

section \<open>Callers and the scheduler\<close>

text \<open>
  A caller issuing \<^verbatim>\<open>getPrivateAppToken\<close> requests one after the other, each awaited
  before the next; a rejected request does not stop the caller.
\<close>

fun getPrivateAppTokens ::
  "net \<Rightarrow> world \<Rightarrow> (int \<times> string list) list \<Rightarrow> (err + string option) list \<times> world" where
  "getPrivateAppTokens n w [] = ([], w)"
| "getPrivateAppTokens n w (q # rest) =
     (case getPrivateAppToken n w (fst q) (snd q) of
        (r, w1) \<Rightarrow> (case getPrivateAppTokens n w1 rest of (rs, w2) \<Rightarrow> (r # rs, w2)))"

text \<open>
  Consecutive \<^verbatim>\<open>setCacheAndRefresh\<close> calls for one appId, each with its token and
  scope groups.
\<close>

fun setCacheAndRefreshAll ::
  "world \<Rightarrow> int \<Rightarrow> (PrivateAppUserTokenResponse \<times> string list) list \<Rightarrow> world" where
  "setCacheAndRefreshAll w appId [] = w"
| "setCacheAndRefreshAll w appId (a # as) =
     setCacheAndRefreshAll (snd (setCacheAndRefresh w appId (Some (fst a)) (snd a))) appId as"

text \<open>The live intervals whose callback refreshes \<open>appId\<close>.\<close>

definition outstanding :: "world \<Rightarrow> int \<Rightarrow> (nat \<times> interval) list" where
  "outstanding w appId = filter (\<lambda>p. iv_appId (snd p) = appId) (intervals w)"

text \<open>
  The bookkeeping invariant of the timer map: handles are unique and were all handed out
  already, and every live interval is the one registered under its appId.
\<close>

definition timers_registered :: "world \<Rightarrow> bool" where
  "timers_registered w \<longleftrightarrow>
     distinct (map fst (intervals w))
     \<and> list_all (\<lambda>p. fst p < nextTimeoutId w
                    \<and> map_of (tokenMapIntervalId w) (iv_appId (snd p)) = Some (fst p))
         (intervals w)"

section \<open>Account-level authentication of a request\<close>

text \<open>
  Modelled from the spec: the declarations of \<^verbatim>\<open>CLIAccount\<close>, \<^verbatim>\<open>CLIConfig\<close>
  (\<^verbatim>\<open>types/Accounts\<close>, \<^verbatim>\<open>types/Config\<close>) and \<^verbatim>\<open>RequestOptions\<close>
  (\<^verbatim>\<open>types/Http\<close>) are not among the sources. An account carries its auth type and
  its stored secrets; the records below have the fields \<^verbatim>\<open>withAuth\<close> and
  \<^verbatim>\<open>getAccount\<close> read, all but the account id optional. \<^verbatim>\<open>this.config\<close> may be
  null. A value of a query parameter is a number, a string or \<^verbatim>\<open>undefined\<close>.
\<close>

datatype nameOrId = Num int | Str string

record CLIAccount =
  acc_name :: "string option"
  acc_accountId :: int
  acc_env :: "string option"
  acc_authType :: "string option"
  acc_apiKey :: "string option"

record CLIConfig =
  accounts :: "CLIAccount list"
  defaultAccount :: "nameOrId option"

datatype qsValue = QNum int | QStr string | QUndefined

record RequestOptions =
  headers :: "(string \<times> string) list"
  qs :: "(string \<times> qsValue) list"

fun truthyNameOrId :: "nameOrId \<Rightarrow> bool" where
  "truthyNameOrId (Num i) = (i \<noteq> 0)"
| "truthyNameOrId (Str s) = (s \<noteq> [])"

definition isDigit :: "char \<Rightarrow> bool" where
  "isDigit c = (48 \<le> (of_char c :: nat) \<and> (of_char c :: nat) \<le> 57)"

text \<open>
  \<^verbatim>\<open>parseInt(s, 10)\<close> on a string of decimal digits, as an exact integer (the
  rounding of a number beyond 2^53 is left out).
\<close>

definition parseInt :: "string \<Rightarrow> int" where
  "parseInt s = foldl (\<lambda>acc c. 10 * acc + (int (of_char c) - 48)) 0 s"

definition getDefaultAccount :: "CLIConfig option \<Rightarrow> nameOrId option" where
  "getDefaultAccount config =
     (case config of
        None \<Rightarrow> None
      | Some c \<Rightarrow> (case defaultAccount c of
                    None \<Rightarrow> None
                  | Some d \<Rightarrow> if truthyNameOrId d then Some d else None))"

definition getAccount :: "CLIConfig option \<Rightarrow> nameOrId option \<Rightarrow> CLIAccount option" where
  "getAccount config nameOrId =
     (case config of
        None \<Rightarrow> None
      | Some c \<Rightarrow>
          (let nameOrIdToCheck =
                 (case nameOrId of
                    None \<Rightarrow> getDefaultAccount config
                  | Some x \<Rightarrow> if truthyNameOrId x then Some x else getDefaultAccount config)
           in case nameOrIdToCheck of
                None \<Rightarrow> None
              | Some (Num i) \<Rightarrow>
                  if i \<noteq> 0 then find (\<lambda>a. i = acc_accountId a) (accounts c) else None
              | Some (Str s) \<Rightarrow>
                  if s \<noteq> [] \<and> list_all isDigit s
                  then (if parseInt s \<noteq> 0
                        then find (\<lambda>a. parseInt s = acc_accountId a) (accounts c) else None)
                  else if s \<noteq> [] then find (\<lambda>a. acc_name a = Some s) (accounts c)
                  else None))"

definition withPortalId :: "int \<Rightarrow> RequestOptions \<Rightarrow> RequestOptions" where
  "withPortalId portalId requestOptions =
     requestOptions\<lparr>qs := AList.update ''portalId'' (QNum portalId) (qs requestOptions)\<rparr>"

definition bearer :: "string \<Rightarrow> RequestOptions \<Rightarrow> RequestOptions" where
  "bearer accessToken requestOptions =
     requestOptions\<lparr>headers :=
       AList.update ''Authorization'' (''Bearer '' @ accessToken) (headers requestOptions)\<rparr>"

text \<open>
  \<^verbatim>\<open>getOauthManager\<close> (lib/oauth) and \<^verbatim>\<open>accessTokenForPersonalAccessKey\<close>
  (lib/personalAccessKey) are parameters: the first gives no manager, or a manager with
  the outcome of its \<^verbatim>\<open>accessToken()\<close>; the second gives the outcome of the exchange.
\<close>

definition withOauth ::
  "(int \<Rightarrow> CLIAccount \<Rightarrow> (err + string) option) \<Rightarrow> int \<Rightarrow> CLIAccount \<Rightarrow> RequestOptions
     \<Rightarrow> err + RequestOptions" where
  "withOauth getOauthManager accId accountConfig requestOptions =
     (case getOauthManager accId accountConfig of
        None \<Rightarrow> Inl (WithOauthError accId)
      | Some (Inl e) \<Rightarrow> Inl e
      | Some (Inr accessToken) \<Rightarrow> Inr (bearer accessToken requestOptions))"

definition withPersonalAccessKey ::
  "(int \<Rightarrow> err + string) \<Rightarrow> int \<Rightarrow> RequestOptions \<Rightarrow> err + RequestOptions" where
  "withPersonalAccessKey accessTokenForPersonalAccessKey accId requestOptions =
     (case accessTokenForPersonalAccessKey accId of
        Inl e \<Rightarrow> Inl e
      | Inr accessToken \<Rightarrow> Inr (bearer accessToken requestOptions))"

text \<open>
  \<^verbatim>\<open>getRequestOptions\<close> (http/requestOptions) is a parameter, applied to the account's
  \<open>env\<close> and the caller's options.
\<close>

definition withAuth ::
  "CLIConfig option \<Rightarrow> (string option \<Rightarrow> 'o \<Rightarrow> RequestOptions) \<Rightarrow> (int \<Rightarrow> err + string)
     \<Rightarrow> (int \<Rightarrow> CLIAccount \<Rightarrow> (err + string) option) \<Rightarrow> int \<Rightarrow> 'o \<Rightarrow> err + RequestOptions" where
  "withAuth config getRequestOptions accessTokenForPersonalAccessKey getOauthManager accId options =
     (case getAccount config (Some (Num accId)) of
        None \<Rightarrow> Inl (WithAuthError accId)
      | Some accountConfig \<Rightarrow>
          (let requestOptions =
                 withPortalId accId (getRequestOptions (acc_env accountConfig) options)
           in if acc_authType accountConfig = Some ''personalaccesskey''
              then withPersonalAccessKey accessTokenForPersonalAccessKey accId requestOptions
              else if acc_authType accountConfig = Some ''oauth2''
              then withOauth getOauthManager accId accountConfig requestOptions
              else Inr (requestOptions\<lparr>qs :=
                     AList.update ''hapikey''
                       (case acc_apiKey accountConfig of None \<Rightarrow> QUndefined | Some k \<Rightarrow> QStr k)
                       (qs requestOptions)\<rparr>)))"

section \<open>A concrete account, used to run the definitions\<close>

text \<open>
  Account 7 with both token-management scopes granted. The remote side has no token for
  an app until one is created; afterwards it reports a token with scope group \<open>read\<close>.
  Create and update answer with a token carrying the scope groups they were asked for.
\<close>

definition demo_net :: net where
  "demo_net =
     \<lparr>fetchPrivateAppUserToken =
        (\<lambda>i acc app. if i \<le> 1 then Inl (AxiosError (Some 404))
                     else Inr \<lparr>userTokenKey = ''k1'', expiresAt = 5000000, scopeGroups = [''read'']\<rparr>),
      createPrivateAppUserToken =
        (\<lambda>i acc app sgs. Inr (Some \<lparr>userTokenKey = ''k1'', expiresAt = 5000000, scopeGroups = sgs\<rparr>)),
      updatePrivateAppUserToken =
        (\<lambda>i acc app key sgs. Inr (Some \<lparr>userTokenKey = ''k2'', expiresAt = 9000000, scopeGroups = sgs\<rparr>)),
      scopeGroupsForPersonalAccessKey = (\<lambda>i acc. Inr [USER_TOKEN_READ, USER_TOKEN_WRITE]),
      latency = (\<lambda>i. 10)\<rparr>"

text \<open>The same, with a create endpoint whose token expired long ago.\<close>

definition stale_net :: net where
  "stale_net =
     demo_net\<lparr>createPrivateAppUserToken :=
       (\<lambda>i acc app sgs. Inr (Some \<lparr>userTokenKey = ''k0'', expiresAt = 5, scopeGroups = sgs\<rparr>))\<rparr>"

text \<open>The same, with an update endpoint that answers 500.\<close>

definition failing_net :: net where
  "failing_net = demo_net\<lparr>updatePrivateAppUserToken := (\<lambda>i acc app key sgs. Inl (AxiosError (Some 500)))\<rparr>"

text \<open>An account that was granted the read scope only.\<close>

definition readonly_net :: net where
  "readonly_net = demo_net\<lparr>scopeGroupsForPersonalAccessKey := (\<lambda>i acc. Inr [USER_TOKEN_READ])\<rparr>"

text \<open>A new manager at time 1000000, after \<^verbatim>\<open>init\<close>, and after a first token request.\<close>

definition demo_new :: world where
  "demo_new = constructor 7 1000000"

definition demo_enabled :: world where
  "demo_enabled = snd (init demo_net demo_new)"

definition demo_cached :: world where
  "demo_cached = snd (getPrivateAppToken demo_net demo_enabled 42 [''read''])"

definition stale_cached :: world where
  "stale_cached = snd (getPrivateAppToken stale_net demo_enabled 42 [''read''])"

text \<open>
  A configuration with an API-key account whose key is missing, an OAuth2 account, and an
  account whose auth type is none of the three strategies; no OAuth manager can be built,
  and the personal-access-key exchange succeeds.
\<close>

definition demo_config :: "CLIConfig option" where
  "demo_config =
     Some \<lparr>accounts =
             [\<lparr>acc_name = Some ''dev'', acc_accountId = 7, acc_env = None,
               acc_authType = Some ''apikey'', acc_apiKey = None\<rparr>,
              \<lparr>acc_name = Some ''ops'', acc_accountId = 8, acc_env = None,
               acc_authType = Some ''oauth2'', acc_apiKey = None\<rparr>,
              \<lparr>acc_name = Some ''old'', acc_accountId = 6, acc_env = None,
               acc_authType = Some ''sso'', acc_apiKey = Some ''key-6''\<rparr>],
           defaultAccount = None\<rparr>"

definition demo_options :: "string option \<Rightarrow> unit \<Rightarrow> RequestOptions" where
  "demo_options e opts = \<lparr>headers = [], qs = []\<rparr>"

definition demo_pak :: "int \<Rightarrow> err + string" where
  "demo_pak accId = Inr ''pak-token''"

definition demo_oauth :: "int \<Rightarrow> CLIAccount \<Rightarrow> (err + string) option" where
  "demo_oauth accId accountConfig = None"

section \<open>Basic facts\<close>

lemmas demo_simps =
  demo_new_def constructor_def init_def demo_net_def stale_net_def failing_net_def readonly_net_def
  await_def USER_TOKEN_READ_def USER_TOKEN_WRITE_def
  getPrivateAppToken_def createOrGetActiveToken_def getExistingToken_def setCacheAndRefresh_def
  doesTokenHaveAllScopes_def setInterval_def clearInterval_def refreshDelayMillis_def Let_def

lemma demo_enabled_eq:
  "demo_enabled = \<lparr>accountId = 7, tokenMap = [], tokenMapIntervalId = [], enabled = True,
      intervals = [], nextTimeoutId = 0, calls = [ScopeCheck 7], now = 1000010\<rparr>"
  by (simp add: demo_enabled_def demo_simps)

lemma demo_cached_eq:
  "demo_cached =
     \<lparr>accountId = 7,
      tokenMap = [(42, \<lparr>userTokenKey = ''k1'', expiresAt = 5000000, scopeGroups = [''read'']\<rparr>)],
      tokenMapIntervalId = [(42, 0)], enabled = True,
      intervals = [(0, Interval 42 ''k1'' [''read''] 3699970)], nextTimeoutId = 1,
      calls = [ScopeCheck 7, Fetch 7 42, Create 7 42 [''read'']], now = 1000030\<rparr>"
  by (simp add: demo_cached_def demo_enabled_eq demo_simps)

lemma stale_cached_eq:
  "stale_cached =
     \<lparr>accountId = 7,
      tokenMap = [(42, \<lparr>userTokenKey = ''k0'', expiresAt = 5, scopeGroups = [''read'']\<rparr>)],
      tokenMapIntervalId = [(42, 0)], enabled = True,
      intervals = [(0, Interval 42 ''k0'' [''read''] 0)], nextTimeoutId = 1,
      calls = [ScopeCheck 7, Fetch 7 42, Create 7 42 [''read'']], now = 1000030\<rparr>"
  by (simp add: stale_cached_def demo_enabled_eq demo_simps)

lemma calls_await: "calls (await n w r) = calls w @ [r]"
  by (simp add: await_def)

lemma enabled_await: "enabled (await n w r) = enabled w"
  by (simp add: await_def)

lemma getPrivateAppToken_disabled:
  "\<not> enabled w \<Longrightarrow> getPrivateAppToken n w appId sgs = (Inr None, w)"
  by (simp add: getPrivateAppToken_def)

lemma getPrivateAppToken_hit:
  "enabled w \<Longrightarrow> doesTokenHaveAllScopes (map_of (tokenMap w) appId) sgs \<Longrightarrow>
     getPrivateAppToken n w appId sgs
       = (Inr (map_option userTokenKey (map_of (tokenMap w) appId)), w)"
  by (auto simp add: getPrivateAppToken_def doesTokenHaveAllScopes_def split: option.splits)

lemma getExistingToken_calls:
  "calls (snd (getExistingToken n w appId)) = calls w @ [Fetch (accountId w) appId]"
  by (simp add: getExistingToken_def Let_def calls_await split: sum.splits)

lemma createOrGetActiveToken_calls:
  "\<exists>rest. calls (snd (createOrGetActiveToken n w appId sgs))
            = calls w @ Fetch (accountId w) appId # rest"
  using getExistingToken_calls[of n w appId]
  by (auto simp add: createOrGetActiveToken_def calls_await
      split: prod.splits sum.splits option.splits)

lemma setCacheAndRefresh_None:
  "setCacheAndRefresh w appId None sgs = (Inl (RefreshFailed (accountId w) appId), w)"
  by (simp add: setCacheAndRefresh_def)

text \<open>What a successful \<^verbatim>\<open>setCacheAndRefresh\<close> leaves behind, field by field.\<close>

lemma setCacheAndRefresh_Some:
  "setCacheAndRefresh w appId (Some t) sgs =
     (Inr (),
      w\<lparr>tokenMap := AList.update appId t (tokenMap w),
        intervals :=
          filter (\<lambda>p. Some (fst p) \<noteq> map_of (tokenMapIntervalId w) appId) (intervals w)
          @ [(nextTimeoutId w,
              Interval appId (userTokenKey t) sgs (refreshDelayMillis (now w) t))],
        nextTimeoutId := Suc (nextTimeoutId w),
        tokenMapIntervalId := AList.update appId (nextTimeoutId w) (tokenMapIntervalId w)\<rparr>)"
  by (cases "map_of (tokenMapIntervalId w) appId")
     (simp_all add: setCacheAndRefresh_def Let_def setInterval_def clearInterval_def)

lemma setCacheAndRefresh_callsD:
  "setCacheAndRefresh w appId token sgs = (r, w') \<Longrightarrow> calls w' = calls w"
  by (cases token) (auto simp add: setCacheAndRefresh_None setCacheAndRefresh_Some)

lemma getPrivateAppToken_miss_calls:
  assumes "enabled w" "\<not> doesTokenHaveAllScopes (map_of (tokenMap w) appId) sgs"
  shows "\<exists>rest. calls (snd (getPrivateAppToken n w appId sgs))
                  = calls w @ Fetch (accountId w) appId # rest"
proof -
  obtain r w1 where c: "createOrGetActiveToken n w appId sgs = (r, w1)"
    by (cases "createOrGetActiveToken n w appId sgs")
  from createOrGetActiveToken_calls[of n w appId sgs] c
  obtain rest where r: "calls w1 = calls w @ Fetch (accountId w) appId # rest" by auto
  show ?thesis using assms c r
    by (auto simp add: getPrivateAppToken_def split: sum.splits prod.splits
        dest!: setCacheAndRefresh_callsD)
qed

lemma getPrivateAppTokens_disabled:
  "\<not> enabled w \<Longrightarrow> getPrivateAppTokens n w reqs = (map (\<lambda>q. Inr None) reqs, w)"
  by (induction reqs) (simp_all add: getPrivateAppToken_disabled)

lemma init_denied:
  assumes "scopeGroupsForPersonalAccessKey n (length (calls w)) (accountId w) = Inr granted"
    and "USER_TOKEN_READ \<notin> set granted \<or> USER_TOKEN_WRITE \<notin> set granted"
  shows "init n w = (Inl (NoScopes (accountId w)), await n w (ScopeCheck (accountId w)))"
  using assms by (auto simp add: init_def Let_def)

section \<open>Serving from the cache\<close>

text \<open>
  C9. On an enabled manager with a cached record for \<open>appId\<close>, a request with the empty
  list of scope groups returns the cached record's key and leaves the whole world as it
  was (so no endpoint is asked), whatever scope groups the record carries.
\<close>

theorem getPrivateAppToken_no_scopes_cached:
  assumes "enabled w" and "map_of (tokenMap w) appId = Some t"
  shows "getPrivateAppToken n w appId [] = (Inr (Some (userTokenKey t)), w)
         \<and> calls (snd (getPrivateAppToken n w appId [])) = calls w"
  using assms by (simp add: getPrivateAppToken_def doesTokenHaveAllScopes_def)

theorem getPrivateAppToken_no_scopes_cached_witness:
  "enabled demo_cached
   \<and> map_of (tokenMap demo_cached) 42
       = Some \<lparr>userTokenKey = ''k1'', expiresAt = 5000000, scopeGroups = [''read'']\<rparr>
   \<and> getPrivateAppToken demo_net demo_cached 42 [] = (Inr (Some ''k1''), demo_cached)"
proof -
  have e: "enabled demo_cached" by (simp add: demo_cached_eq)
  have m: "map_of (tokenMap demo_cached) 42
             = Some \<lparr>userTokenKey = ''k1'', expiresAt = 5000000, scopeGroups = [''read'']\<rparr>"
    by (simp add: demo_cached_eq)
  show ?thesis
    using e m getPrivateAppToken_no_scopes_cached[OF e m, of demo_net] by simp
qed

text \<open>
  C2, as the claim states it, fails: a record that expired long before the request
  (\<open>expiresAt = 5\<close>, clock at 1000030) is served from the cache without any request.
\<close>

theorem expired_cached_record_is_served:
  "enabled stale_cached
   \<and> map_option expiresAt (map_of (tokenMap stale_cached) 42) = Some 5
   \<and> now stale_cached = 1000030
   \<and> getPrivateAppToken stale_net stale_cached 42 [''read''] = (Inr (Some ''k0''), stale_cached)"
  by (simp add: stale_cached_eq getPrivateAppToken_def doesTokenHaveAllScopes_def)

text \<open>
  C2, amended. On an enabled manager the cached key is returned directly, the world
  unchanged, exactly when a record is cached for \<open>appId\<close> and its scope groups cover the
  required ones; otherwise the next request issued is the fetch of the existing token.
  Neither \<open>expiresAt\<close> nor the clock is consulted on this path.
\<close>

theorem cache_hit_is_scope_coverage_only:
  assumes "enabled w"
  shows "(doesTokenHaveAllScopes (map_of (tokenMap w) appId) sgs \<longrightarrow>
            getPrivateAppToken n w appId sgs
              = (Inr (map_option userTokenKey (map_of (tokenMap w) appId)), w))
         \<and> (\<not> doesTokenHaveAllScopes (map_of (tokenMap w) appId) sgs \<longrightarrow>
              (\<exists>rest. calls (snd (getPrivateAppToken n w appId sgs))
                        = calls w @ Fetch (accountId w) appId # rest))"
  using assms getPrivateAppToken_hit[of w appId sgs n]
    getPrivateAppToken_miss_calls[of w appId sgs n]
  by blast

theorem cache_hit_is_scope_coverage_only_witness:
  "enabled stale_cached
   \<and> doesTokenHaveAllScopes (map_of (tokenMap stale_cached) 42) [''read'']
   \<and> getPrivateAppToken stale_net stale_cached 42 [''read''] = (Inr (Some ''k0''), stale_cached)
   \<and> \<not> doesTokenHaveAllScopes (map_of (tokenMap stale_cached) 42) [''write'']
   \<and> (\<exists>rest. calls (snd (getPrivateAppToken stale_net stale_cached 42 [''write'']))
               = calls stale_cached @ Fetch (accountId stale_cached) 42 # rest)"
proof -
  have e: "enabled stale_cached" by (simp add: stale_cached_eq)
  have c: "doesTokenHaveAllScopes (map_of (tokenMap stale_cached) 42) [''read'']"
    by (simp add: stale_cached_eq doesTokenHaveAllScopes_def)
  have d: "\<not> doesTokenHaveAllScopes (map_of (tokenMap stale_cached) 42) [''write'']"
    by (simp add: stale_cached_eq doesTokenHaveAllScopes_def)
  have k: "map_option userTokenKey (map_of (tokenMap stale_cached) 42) = Some ''k0''"
    by (simp add: stale_cached_eq)
  show ?thesis
    using e c d k
      cache_hit_is_scope_coverage_only[OF e, of 42 "[''read'']" stale_net]
      cache_hit_is_scope_coverage_only[OF e, of 42 "[''write'']" stale_net]
    by simp
qed

section \<open>Initialisation without the token-management scopes\<close>

text \<open>
  C3, as the claim states it, fails: with the write scope missing, \<^verbatim>\<open>init\<close> raises.
\<close>

theorem init_raises_without_scopes:
  "fst (init readonly_net demo_new) = Inl (NoScopes 7)"
  by (simp add: demo_simps)

text \<open>
  C3, amended. When the scope check answers without both token-management scopes,
  \<^verbatim>\<open>init\<close> raises the \<open>noScopes\<close> error and a manager that was not enabled stays
  disabled; from then on every \<^verbatim>\<open>getPrivateAppToken\<close> request returns nothing and
  leaves the world unchanged, so the scope check remains the only request ever issued.
\<close>

theorem init_without_scopes_disables:
  assumes "\<not> enabled w"
    and "scopeGroupsForPersonalAccessKey n (length (calls w)) (accountId w) = Inr granted"
    and "USER_TOKEN_READ \<notin> set granted \<or> USER_TOKEN_WRITE \<notin> set granted"
  shows "fst (init n w) = Inl (NoScopes (accountId w))
         \<and> \<not> isEnabled (snd (init n w))
         \<and> calls (snd (init n w)) = calls w @ [ScopeCheck (accountId w)]
         \<and> getPrivateAppTokens n (snd (init n w)) reqs
             = (map (\<lambda>q. Inr None) reqs, snd (init n w))"
proof -
  have i: "init n w = (Inl (NoScopes (accountId w)), await n w (ScopeCheck (accountId w)))"
    using assms(2,3) by (rule init_denied)
  have d: "\<not> enabled (snd (init n w))"
    using assms(1) by (simp add: i enabled_await)
  show ?thesis
    using d getPrivateAppTokens_disabled[OF d, of n reqs]
    by (simp add: i isEnabled_def calls_await)
qed

theorem init_without_scopes_disables_witness:
  "\<not> enabled demo_new
   \<and> scopeGroupsForPersonalAccessKey readonly_net (length (calls demo_new)) (accountId demo_new)
       = Inr [USER_TOKEN_READ]
   \<and> USER_TOKEN_WRITE \<notin> set [USER_TOKEN_READ]
   \<and> fst (init readonly_net demo_new) = Inl (NoScopes 7)
   \<and> getPrivateAppTokens readonly_net (snd (init readonly_net demo_new))
        [(42, [''read'']), (43, [])]
       = ([Inr None, Inr None], snd (init readonly_net demo_new))"
proof -
  have a: "\<not> enabled demo_new" by (simp add: demo_new_def constructor_def)
  have b: "scopeGroupsForPersonalAccessKey readonly_net (length (calls demo_new))
             (accountId demo_new) = Inr [USER_TOKEN_READ]"
    by (simp add: readonly_net_def demo_net_def)
  have c: "USER_TOKEN_WRITE \<notin> set [USER_TOKEN_READ]"
    by (simp add: USER_TOKEN_READ_def USER_TOKEN_WRITE_def)
  have c': "USER_TOKEN_READ \<notin> set [USER_TOKEN_READ] \<or> USER_TOKEN_WRITE \<notin> set [USER_TOKEN_READ]"
    using c by simp
  have acc: "accountId demo_new = 7" by (simp add: demo_new_def constructor_def)
  show ?thesis
    using a b c acc
      init_without_scopes_disables[OF a b c', of "[(42, [''read'']), (43, [])]"]
    by simp
qed

section \<open>Failure of the background refresh\<close>

text \<open>
  C5, as the claim states it, fails: the interval armed for app 42 fires, the update
  endpoint answers 500, and the callback's promise is rejected with that error; nothing
  on the path catches or logs it.
\<close>

theorem refresh_failure_is_raised:
  "map_of (intervals demo_cached) 0 = Some (Interval 42 ''k1'' [''read''] 3699970)
   \<and> fst (fire failing_net demo_cached 0) = Inl (AxiosError (Some 500))"
  by (simp add: demo_cached_eq fire_def refreshToken_def refreshToken_resume_def demo_simps)

text \<open>
  C5, amended. When the interval of a cached app fires and the update endpoint rejects or
  returns no token, the callback's promise is rejected (with the endpoint's error, or with
  \<open>refreshFailed\<close>); exactly one update request was issued, and the token map, the timer
  map and the live intervals are as before.
\<close>

theorem refresh_failure_leaves_cache:
  assumes "map_of (intervals w) h = Some (Interval appId key sgs d)"
    and "\<forall>t. updatePrivateAppUserToken n (length (calls w)) (accountId w) appId key sgs \<noteq> Inr (Some t)"
  shows "fst (fire n w h) =
           (case updatePrivateAppUserToken n (length (calls w)) (accountId w) appId key sgs of
              Inl e \<Rightarrow> Inl e | Inr _ \<Rightarrow> Inl (RefreshFailed (accountId w) appId))
         \<and> calls (snd (fire n w h)) = calls w @ [Update (accountId w) appId key sgs]
         \<and> tokenMap (snd (fire n w h)) = tokenMap w
         \<and> tokenMapIntervalId (snd (fire n w h)) = tokenMapIntervalId w
         \<and> intervals (snd (fire n w h)) = intervals w"
  using assms
  by (auto simp add: fire_def refreshToken_def refreshToken_resume_def await_def
      split: sum.splits option.splits)

theorem refresh_failure_leaves_cache_witness:
  "map_of (intervals demo_cached) 0 = Some (Interval 42 ''k1'' [''read''] 3699970)
   \<and> (\<forall>t. updatePrivateAppUserToken failing_net (length (calls demo_cached)) (accountId demo_cached) 42 ''k1'' [''read''] \<noteq> Inr (Some t))
   \<and> fst (fire failing_net demo_cached 0) = Inl (AxiosError (Some 500))
   \<and> tokenMap (snd (fire failing_net demo_cached 0)) = tokenMap demo_cached
   \<and> calls (snd (fire failing_net demo_cached 0)) = calls demo_cached @ [Update 7 42 ''k1'' [''read'']]"
proof -
  have a: "map_of (intervals demo_cached) 0 = Some (Interval 42 ''k1'' [''read''] 3699970)"
    by (simp add: demo_cached_eq)
  have u: "\<And>i acc app key sgs. updatePrivateAppUserToken failing_net i acc app key sgs = Inl (AxiosError (Some 500))"
    by (simp add: failing_net_def)
  have b: "\<forall>t. updatePrivateAppUserToken failing_net (length (calls demo_cached)) (accountId demo_cached) 42 ''k1'' [''read''] \<noteq> Inr (Some t)"
    by (simp add: u)
  have acc: "accountId demo_cached = 7" by (simp add: demo_cached_eq)
  show ?thesis using a acc refresh_failure_leaves_cache[OF a b] by (simp add: u)
qed

section \<open>Shutdown\<close>

lemma fold_clearInterval_frame:
  "accountId (fold clearInterval hs w) = accountId w
   \<and> enabled (fold clearInterval hs w) = enabled w
   \<and> nextTimeoutId (fold clearInterval hs w) = nextTimeoutId w
   \<and> calls (fold clearInterval hs w) = calls w
   \<and> now (fold clearInterval hs w) = now w
   \<and> tokenMap (fold clearInterval hs w) = tokenMap w
   \<and> tokenMapIntervalId (fold clearInterval hs w) = tokenMapIntervalId w"
  by (induction hs arbitrary: w) (simp_all add: clearInterval_def)

lemma fold_clearInterval_intervals:
  "intervals (fold clearInterval hs w) = filter (\<lambda>p. fst p \<notin> set hs) (intervals w)"
proof (induction hs arbitrary: w)
  case Nil
  show ?case by simp
next
  case (Cons h hs)
  have "intervals (fold clearInterval (h # hs) w)
          = filter (\<lambda>p. fst p \<notin> set hs) (filter (\<lambda>p. fst p \<noteq> h) (intervals w))"
    by (simp add: Cons.IH clearInterval_def)
  also have "\<dots> = filter (\<lambda>p. fst p \<notin> set (h # hs)) (intervals w)"
    by (simp add: conj_commute)
  finally show ?case .
qed

lemma cleanup_eq:
  "cleanup w = w\<lparr>intervals := filter (\<lambda>p. fst p \<notin> snd ` set (tokenMapIntervalId w)) (intervals w),
                 tokenMapIntervalId := [], tokenMap := []\<rparr>"
  unfolding cleanup_def
  by (rule world.equality)
     (simp_all add: fold_clearInterval_frame fold_clearInterval_intervals)

lemma cleanup_registered:
  assumes "timers_registered w"
  shows "timers_registered (cleanup w)"
proof -
  have "filter (\<lambda>p. fst p \<notin> snd ` set (tokenMapIntervalId w)) (intervals w) = []"
    using assms
    by (force simp add: timers_registered_def list_all_iff filter_empty_conv dest: map_of_SomeD)
  then show ?thesis by (simp add: cleanup_eq timers_registered_def)
qed

lemma cleanup_intervals:
  "timers_registered w \<Longrightarrow> intervals (cleanup w) = []"
  by (force simp add: cleanup_eq timers_registered_def list_all_iff filter_empty_conv dest: map_of_SomeD)

text \<open>
  C4, as the claim states it, fails: the refresh of app 42 is in flight (its update
  request is issued), \<^verbatim>\<open>cleanup\<close> empties the token map and the intervals, and the
  answer then arriving puts the new token into the token map and arms interval 1.
\<close>

theorem refresh_in_flight_writes_after_cleanup:
  "tokenMap (cleanup (await demo_net demo_cached (Update 7 42 ''k1'' [''read'']))) = []
   \<and> intervals (cleanup (await demo_net demo_cached (Update 7 42 ''k1'' [''read'']))) = []
   \<and> snd (refreshToken_resume (cleanup (await demo_net demo_cached (Update 7 42 ''k1'' [''read''])))
        42 [''read''] (updatePrivateAppUserToken demo_net 3 7 42 ''k1'' [''read'']))
     = \<lparr>accountId = 7,
      tokenMap = [(42, \<lparr>userTokenKey = ''k2'', expiresAt = 9000000, scopeGroups = [''read'']\<rparr>)],
      tokenMapIntervalId = [(42, 1)], enabled = True,
      intervals = [(1, Interval 42 ''k2'' [''read''] 7699960)], nextTimeoutId = 2,
      calls = [ScopeCheck 7, Fetch 7 42, Create 7 42 [''read''], Update 7 42 ''k1'' [''read'']], now = 1000040\<rparr>"
  by (simp add: demo_cached_eq cleanup_def refreshToken_resume_def await_def demo_net_def setCacheAndRefresh_def Let_def setInterval_def clearInterval_def refreshDelayMillis_def)

text \<open>
  C4, amended. \<^verbatim>\<open>cleanup\<close> empties the token map and the timer map and clears the
  intervals the timer map registered (all live intervals, when the timer map is in
  order), and there is no shut-down flag: a refresh in flight at that moment, once the
  update endpoint answers with a token, stores that token as the only entry of the token
  map and arms a new interval for the appId, registered in the timer map, next to what
  \<^verbatim>\<open>cleanup\<close> left live.
\<close>

theorem refresh_resumes_after_cleanup:
  "tokenMap (cleanup w) = [] \<and> tokenMapIntervalId (cleanup w) = []
   \<and> intervals (cleanup w)
       = filter (\<lambda>p. fst p \<notin> snd ` set (tokenMapIntervalId w)) (intervals w)
   \<and> (timers_registered w \<longrightarrow> intervals (cleanup w) = [])
   \<and> tokenMap (snd (refreshToken_resume (cleanup w) appId sgs (Inr (Some t)))) = [(appId, t)]
   \<and> tokenMapIntervalId (snd (refreshToken_resume (cleanup w) appId sgs (Inr (Some t))))
       = [(appId, nextTimeoutId w)]
   \<and> intervals (snd (refreshToken_resume (cleanup w) appId sgs (Inr (Some t))))
       = intervals (cleanup w)
         @ [(nextTimeoutId w, Interval appId (userTokenKey t) sgs (refreshDelayMillis (now w) t))]"
  using cleanup_intervals[of w]
  by (simp add: refreshToken_resume_def setCacheAndRefresh_Some cleanup_eq)

theorem refresh_resumes_after_cleanup_witness:
  "timers_registered demo_cached
   \<and> intervals demo_cached = [(0, Interval 42 ''k1'' [''read''] 3699970)]
   \<and> tokenMap (cleanup demo_cached) = []
   \<and> intervals (cleanup demo_cached) = []
   \<and> tokenMap (snd (refreshToken_resume (cleanup demo_cached) 42 [''read'']
        (Inr (Some \<lparr>userTokenKey = ''k2'', expiresAt = 9000000, scopeGroups = [''read'']\<rparr>))))
       = [(42, \<lparr>userTokenKey = ''k2'', expiresAt = 9000000, scopeGroups = [''read'']\<rparr>)]
   \<and> tokenMapIntervalId (snd (refreshToken_resume (cleanup demo_cached) 42 [''read'']
        (Inr (Some \<lparr>userTokenKey = ''k2'', expiresAt = 9000000, scopeGroups = [''read'']\<rparr>))))
       = [(42, 1)]
   \<and> intervals (snd (refreshToken_resume (cleanup demo_cached) 42 [''read'']
        (Inr (Some \<lparr>userTokenKey = ''k2'', expiresAt = 9000000, scopeGroups = [''read'']\<rparr>))))
       = [(1, Interval 42 ''k2'' [''read''] 7699970)]"
proof -
  have r: "timers_registered demo_cached"
    by (simp add: demo_cached_eq timers_registered_def)
  have f: "nextTimeoutId demo_cached = 1" "now demo_cached = 1000030"
    "intervals demo_cached = [(0, Interval 42 ''k1'' [''read''] 3699970)]"
    "tokenMapIntervalId demo_cached = [(42, 0)]"
    by (simp_all add: demo_cached_eq)
  show ?thesis
    using r refresh_resumes_after_cleanup[of demo_cached 42 "[''read'']"
        "\<lparr>userTokenKey = ''k2'', expiresAt = 9000000, scopeGroups = [''read'']\<rparr>"]
    by (simp add: f refreshDelayMillis_def)
qed

section \<open>Obtaining a token over the network\<close>

lemma map_of_update_same: "map_of (AList.update k v al) k = Some v"
  by (simp add: update_conv')

lemma getPrivateAppToken_miss:
  assumes "enabled w" and "\<not> doesTokenHaveAllScopes (map_of (tokenMap w) appId) sgs"
  shows "getPrivateAppToken n w appId sgs =
     (case createOrGetActiveToken n w appId sgs of
        (Inl e, w1) \<Rightarrow> (Inl (wrapApiError (accountId w1) appId e), w1)
      | (Inr None, w1) \<Rightarrow>
          (Inl (wrapApiError (accountId w1) appId (RefreshFailed (accountId w1) appId)), w1)
      | (Inr (Some t), w1) \<Rightarrow>
          (Inr (Some (userTokenKey t)), snd (setCacheAndRefresh w1 appId (Some t) sgs)))"
  using assms
  by (simp add: getPrivateAppToken_def setCacheAndRefresh_Some setCacheAndRefresh_None
      split: prod.splits sum.splits option.splits)

lemma getPrivateAppToken_miss_success:
  assumes "enabled w" and "\<not> doesTokenHaveAllScopes (map_of (tokenMap w) appId) sgs"
    and "fst (getPrivateAppToken n w appId sgs) = Inr k"
  shows "\<exists>t h iv. k = Some (userTokenKey t)
           \<and> map_of (tokenMap (snd (getPrivateAppToken n w appId sgs))) appId = Some t
           \<and> map_of (tokenMapIntervalId (snd (getPrivateAppToken n w appId sgs))) appId = Some h
           \<and> (h, iv) \<in> set (intervals (snd (getPrivateAppToken n w appId sgs)))
           \<and> iv_appId iv = appId"
proof -
  obtain r w1 where c: "createOrGetActiveToken n w appId sgs = (r, w1)"
    by (cases "createOrGetActiveToken n w appId sgs")
  from assms(3) obtain t where t: "r = Inr (Some t)" "k = Some (userTokenKey t)"
    by (auto simp add: getPrivateAppToken_miss[OF assms(1,2)] c split: sum.splits option.splits)
  have g: "getPrivateAppToken n w appId sgs
             = (Inr (Some (userTokenKey t)), snd (setCacheAndRefresh w1 appId (Some t) sgs))"
    by (simp add: getPrivateAppToken_miss[OF assms(1,2)] c t)
  show ?thesis
    apply (rule exI[of _ t], rule exI[of _ "nextTimeoutId w1"])
    apply (rule exI[of _ "Interval appId (userTokenKey t) sgs (refreshDelayMillis (now w1) t)"])
    apply (simp add: g t setCacheAndRefresh_Some map_of_update_same)
    done
qed

text \<open>
  C6. On an enabled manager with no cached record for \<open>appId\<close>, when the fetch of the
  existing token answers 404, \<^verbatim>\<open>getPrivateAppToken\<close> returns the key of the token that
  one create request, with the requested scope groups, answers with; the two requests are
  the only ones issued; the token is the cached record of \<open>appId\<close>; and an interval for the
  refresh is armed and registered, with delay \<open>max (expiresAt - now - 5 minutes) 0\<close>.
\<close>

theorem getPrivateAppToken_creates_when_not_found:
  assumes "enabled w" and "map_of (tokenMap w) appId = None"
    and "fetchPrivateAppUserToken n (length (calls w)) (accountId w) appId = Inl (AxiosError (Some 404))"
    and "createPrivateAppUserToken n (Suc (length (calls w))) (accountId w) appId sgs = Inr (Some t)"
  shows "fst (getPrivateAppToken n w appId sgs) = Inr (Some (userTokenKey t))
    \<and> calls (snd (getPrivateAppToken n w appId sgs))
        = calls w @ [Fetch (accountId w) appId, Create (accountId w) appId sgs]
    \<and> map_of (tokenMap (snd (getPrivateAppToken n w appId sgs))) appId = Some t
    \<and> map_of (tokenMapIntervalId (snd (getPrivateAppToken n w appId sgs))) appId
        = Some (nextTimeoutId w)
    \<and> (nextTimeoutId w,
        Interval appId (userTokenKey t) sgs
          (max (expiresAt t - now (snd (getPrivateAppToken n w appId sgs)) - 300000) 0))
        \<in> set (intervals (snd (getPrivateAppToken n w appId sgs)))"
proof -
  let ?w1 = "await n w (Fetch (accountId w) appId)"
  let ?w2 = "await n ?w1 (Create (accountId w) appId sgs)"
  have g: "getExistingToken n w appId = (Inr None, ?w1)"
    using assms(3) by (simp add: getExistingToken_def Let_def)
  have c: "createOrGetActiveToken n w appId sgs = (Inr (Some t), ?w2)"
    using assms(4) by (simp add: createOrGetActiveToken_def g await_def)
  have m: "\<not> doesTokenHaveAllScopes (map_of (tokenMap w) appId) sgs"
    using assms(2) by (simp add: doesTokenHaveAllScopes_def)
  have r: "getPrivateAppToken n w appId sgs
             = (Inr (Some (userTokenKey t)), snd (setCacheAndRefresh ?w2 appId (Some t) sgs))"
    using assms(1,2) by (simp add: getPrivateAppToken_def c setCacheAndRefresh_Some)
  show ?thesis
    by (simp add: r setCacheAndRefresh_Some map_of_update_same await_def refreshDelayMillis_def
        algebra_simps)
qed

theorem getPrivateAppToken_creates_when_not_found_witness:
  "enabled demo_enabled \<and> map_of (tokenMap demo_enabled) 42 = None
   \<and> fetchPrivateAppUserToken demo_net (length (calls demo_enabled)) (accountId demo_enabled) 42
       = Inl (AxiosError (Some 404))
   \<and> createPrivateAppUserToken demo_net (Suc (length (calls demo_enabled))) (accountId demo_enabled) 42 [''read'']
       = Inr (Some \<lparr>userTokenKey = ''k1'', expiresAt = 5000000, scopeGroups = [''read'']\<rparr>)
   \<and> fst (getPrivateAppToken demo_net demo_enabled 42 [''read'']) = Inr (Some ''k1'')
   \<and> calls (snd (getPrivateAppToken demo_net demo_enabled 42 [''read'']))
       = [ScopeCheck 7, Fetch 7 42, Create 7 42 [''read'']]
   \<and> (0, Interval 42 ''k1'' [''read''] 3699970)
       \<in> set (intervals (snd (getPrivateAppToken demo_net demo_enabled 42 [''read''])))"
proof -
  have a: "enabled demo_enabled" by (simp add: demo_enabled_eq)
  have b: "map_of (tokenMap demo_enabled) 42 = None" by (simp add: demo_enabled_eq)
  have c: "fetchPrivateAppUserToken demo_net (length (calls demo_enabled)) (accountId demo_enabled) 42
       = Inl (AxiosError (Some 404))" by (simp add: demo_enabled_eq demo_net_def)
  have d: "createPrivateAppUserToken demo_net (Suc (length (calls demo_enabled))) (accountId demo_enabled) 42 [''read'']
       = Inr (Some \<lparr>userTokenKey = ''k1'', expiresAt = 5000000, scopeGroups = [''read'']\<rparr>)"
    by (simp add: demo_net_def)
  have w: "snd (getPrivateAppToken demo_net demo_enabled 42 [''read'']) = demo_cached"
    by (simp add: demo_cached_def)
  have f: "accountId demo_enabled = 7" "nextTimeoutId demo_enabled = 0"
    "calls demo_enabled = [ScopeCheck 7]"
    by (simp_all add: demo_enabled_eq)
  show ?thesis
    using a b c d getPrivateAppToken_creates_when_not_found[OF a b c d, unfolded w]
    by (simp add: w f demo_cached_eq)
qed

text \<open>
  C1, as the claim states it, fails: the cached record of app 42 carries \<open>read\<close>; a request
  for \<open>write\<close> sends the update endpoint \<open>write\<close> alone, not the union, and the record
  cached afterwards carries \<open>write\<close> only.
\<close>

theorem update_request_drops_cached_scopes:
  "map_option scopeGroups (map_of (tokenMap demo_cached) 42) = Some [''read'']
   \<and> calls (snd (getPrivateAppToken demo_net demo_cached 42 [''write'']))
       = calls demo_cached @ [Fetch 7 42, Update 7 42 ''k1'' [''write'']]
   \<and> map_option scopeGroups
        (map_of (tokenMap (snd (getPrivateAppToken demo_net demo_cached 42 [''write'']))) 42)
       = Some [''write'']"
  by (simp add: demo_cached_eq demo_simps)

text \<open>
  C1, amended. When \<^verbatim>\<open>getPrivateAppToken\<close> misses the cache and the existing remote
  token is within five minutes of expiry or does not cover the required scope groups, the
  update endpoint is asked for exactly the scope groups of this request, and the token it
  answers with replaces the cached record, whatever scope groups it carries.
\<close>

theorem update_requests_required_scopes:
  assumes "enabled w" and "\<not> doesTokenHaveAllScopes (map_of (tokenMap w) appId) sgs"
    and "fetchPrivateAppUserToken n (length (calls w)) (accountId w) appId = Inr old"
    and "now w + int (latency n (length (calls w))) + 300000 > expiresAt old
         \<or> \<not> doesTokenHaveAllScopes (Some old) sgs"
  shows "calls (snd (getPrivateAppToken n w appId sgs))
           = calls w @ [Fetch (accountId w) appId,
                        Update (accountId w) appId (userTokenKey old) sgs]
         \<and> (\<forall>t'. updatePrivateAppUserToken n (Suc (length (calls w))) (accountId w) appId
                    (userTokenKey old) sgs = Inr (Some t')
                \<longrightarrow> fst (getPrivateAppToken n w appId sgs) = Inr (Some (userTokenKey t'))
                    \<and> map_of (tokenMap (snd (getPrivateAppToken n w appId sgs))) appId = Some t')"
proof -
  let ?w1 = "await n w (Fetch (accountId w) appId)"
  let ?w2 = "await n ?w1 (Update (accountId w) appId (userTokenKey old) sgs)"
  let ?a = "updatePrivateAppUserToken n (Suc (length (calls w))) (accountId w) appId (userTokenKey old) sgs"
  have g: "getExistingToken n w appId = (Inr (Some old), ?w1)"
    using assms(3) by (simp add: getExistingToken_def Let_def)
  have c: "createOrGetActiveToken n w appId sgs = (?a, ?w2)"
    using assms(4) by (auto simp add: createOrGetActiveToken_def g await_def)
  have r: "getPrivateAppToken n w appId sgs =
            (case ?a of Inl e \<Rightarrow> (Inl (wrapApiError (accountId w) appId e), ?w2)
             | Inr None \<Rightarrow> (Inl (wrapApiError (accountId w) appId (RefreshFailed (accountId w) appId)), ?w2)
             | Inr (Some t') \<Rightarrow> (Inr (Some (userTokenKey t')), snd (setCacheAndRefresh ?w2 appId (Some t') sgs)))"
    using assms(1,2)
    by (simp add: getPrivateAppToken_def c setCacheAndRefresh_Some setCacheAndRefresh_None await_def
        split: sum.splits option.splits)
  show ?thesis
    by (simp add: r setCacheAndRefresh_Some map_of_update_same await_def
        split: sum.splits option.splits)
qed

theorem update_requests_required_scopes_witness:
  "enabled demo_cached
   \<and> \<not> doesTokenHaveAllScopes (map_of (tokenMap demo_cached) 42) [''write'']
   \<and> fetchPrivateAppUserToken demo_net (length (calls demo_cached)) (accountId demo_cached) 42
       = Inr \<lparr>userTokenKey = ''k1'', expiresAt = 5000000, scopeGroups = [''read'']\<rparr>
   \<and> \<not> doesTokenHaveAllScopes
          (Some \<lparr>userTokenKey = ''k1'', expiresAt = 5000000, scopeGroups = [''read'']\<rparr>) [''write'']
   \<and> calls (snd (getPrivateAppToken demo_net demo_cached 42 [''write'']))
       = [ScopeCheck 7, Fetch 7 42, Create 7 42 [''read''], Fetch 7 42,
          Update 7 42 ''k1'' [''write'']]"
proof -
  let ?old = "\<lparr>userTokenKey = ''k1'', expiresAt = 5000000, scopeGroups = [''read'']\<rparr>"
  have a: "enabled demo_cached" by (simp add: demo_cached_eq)
  have b: "\<not> doesTokenHaveAllScopes (map_of (tokenMap demo_cached) 42) [''write'']"
    by (simp add: demo_cached_eq doesTokenHaveAllScopes_def)
  have c: "fetchPrivateAppUserToken demo_net (length (calls demo_cached)) (accountId demo_cached) 42
             = Inr ?old"
    by (simp add: demo_cached_eq demo_net_def)
  have d: "\<not> doesTokenHaveAllScopes (Some ?old) [''write'']"
    by (simp add: doesTokenHaveAllScopes_def)
  have d': "now demo_cached + int (latency demo_net (length (calls demo_cached))) + 300000
              > expiresAt ?old \<or> \<not> doesTokenHaveAllScopes (Some ?old) [''write'']"
    using d by simp
  have f: "accountId demo_cached = 7"
    "calls demo_cached = [ScopeCheck 7, Fetch 7 42, Create 7 42 [''read'']]"
    by (simp_all add: demo_cached_eq)
  show ?thesis
    using a b c d update_requests_required_scopes[OF a b c d'] by (simp add: f)
qed

lemma createOrGetActiveToken_eq:
  "createOrGetActiveToken n w appId sgs =
     (case fetchPrivateAppUserToken n (length (calls w)) (accountId w) appId of
        Inl e \<Rightarrow>
          if isAxiosError e \<and> status404 e
          then (createPrivateAppUserToken n (Suc (length (calls w))) (accountId w) appId sgs,
                await n (await n w (Fetch (accountId w) appId)) (Create (accountId w) appId sgs))
          else (Inl e, await n w (Fetch (accountId w) appId))
      | Inr old \<Rightarrow>
          if now w + int (latency n (length (calls w))) + 300000 > expiresAt old
             \<or> \<not> doesTokenHaveAllScopes (Some old) sgs
          then (updatePrivateAppUserToken n (Suc (length (calls w))) (accountId w) appId
                  (userTokenKey old) sgs,
                await n (await n w (Fetch (accountId w) appId))
                  (Update (accountId w) appId (userTokenKey old) sgs))
          else (Inr (Some old), await n w (Fetch (accountId w) appId)))"
  by (simp add: createOrGetActiveToken_def getExistingToken_def Let_def await_def
      split: sum.splits)

text \<open>The requests a cache miss adds after the fetch of the existing token.\<close>

lemma getPrivateAppToken_miss_requests:
  assumes "enabled w" and "\<not> doesTokenHaveAllScopes (map_of (tokenMap w) appId) sgs"
  shows "calls (snd (getPrivateAppToken n w appId sgs)) =
     calls w @ Fetch (accountId w) appId #
       (case fetchPrivateAppUserToken n (length (calls w)) (accountId w) appId of
          Inl e \<Rightarrow> if isAxiosError e \<and> status404 e
                   then [Create (accountId w) appId sgs] else []
        | Inr old \<Rightarrow>
            if now w + int (latency n (length (calls w))) + 300000 > expiresAt old
               \<or> \<not> doesTokenHaveAllScopes (Some old) sgs
            then [Update (accountId w) appId (userTokenKey old) sgs] else [])"
  by (simp add: getPrivateAppToken_miss[OF assms] createOrGetActiveToken_eq
      setCacheAndRefresh_Some await_def split: sum.splits option.splits)

lemma getPrivateAppToken_miss_reuse:
  assumes "enabled w" and "\<not> doesTokenHaveAllScopes (map_of (tokenMap w) appId) sgs"
    and "fetchPrivateAppUserToken n (length (calls w)) (accountId w) appId = Inr old"
    and "\<not> now w + int (latency n (length (calls w))) + 300000 > expiresAt old"
    and "doesTokenHaveAllScopes (Some old) sgs"
  shows "fst (getPrivateAppToken n w appId sgs) = Inr (Some (userTokenKey old))
         \<and> map_of (tokenMap (snd (getPrivateAppToken n w appId sgs))) appId = Some old"
  using assms(3,4,5)
  by (simp add: getPrivateAppToken_miss[OF assms(1,2)] createOrGetActiveToken_eq
      setCacheAndRefresh_Some map_of_update_same)

text \<open>
  C10, as the claim states it, fails: after \<^verbatim>\<open>cleanup\<close> the manager is still enabled,
  and the next request for app 42 returns the key of the token the remote side already
  holds; the fetch is the only request, nothing is created or updated.
\<close>

theorem cleanup_then_reuses_remote_token:
  "enabled demo_cached
   \<and> isEnabled (cleanup demo_cached)
   \<and> fst (getPrivateAppToken demo_net (cleanup demo_cached) 42 [''read'']) = Inr (Some ''k1'')
   \<and> calls (snd (getPrivateAppToken demo_net (cleanup demo_cached) 42 [''read'']))
       = calls demo_cached @ [Fetch 7 42]"
proof -
  have c: "cleanup demo_cached =
     \<lparr>accountId = 7, tokenMap = [], tokenMapIntervalId = [], enabled = True,
      intervals = [], nextTimeoutId = 1,
      calls = [ScopeCheck 7, Fetch 7 42, Create 7 42 [''read'']], now = 1000030\<rparr>"
    by (simp add: cleanup_eq demo_cached_eq)
  show ?thesis
    by (simp add: c isEnabled_def demo_simps) (simp add: demo_cached_eq)
qed

text \<open>
  C10, amended. \<^verbatim>\<open>cleanup\<close> leaves \<open>enabled\<close> (and the account id and the requests
  issued) as they were, empties the two maps and clears the registered intervals. So a
  manager that was enabled still reports \<^verbatim>\<open>isEnabled\<close>, and its next
  \<^verbatim>\<open>getPrivateAppToken\<close> goes to the network: it fetches the existing token, then
  creates one when there is none (404), updates it when it is within five minutes of
  expiry or does not cover the required scope groups, and otherwise issues no further
  request and returns the fetched token's key, caching that token. Whenever the call
  returns, it returns the key of a token that is now cached, with an interval armed and
  registered for the appId.
\<close>

theorem cleanup_keeps_enabled:
  "isEnabled (cleanup w) = isEnabled w
   \<and> accountId (cleanup w) = accountId w
   \<and> calls (cleanup w) = calls w
   \<and> tokenMap (cleanup w) = [] \<and> tokenMapIntervalId (cleanup w) = []
   \<and> intervals (cleanup w)
       = filter (\<lambda>p. fst p \<notin> snd ` set (tokenMapIntervalId w)) (intervals w)
   \<and> (enabled w \<longrightarrow>
        calls (snd (getPrivateAppToken n (cleanup w) appId sgs)) =
          calls w @ Fetch (accountId w) appId #
            (case fetchPrivateAppUserToken n (length (calls w)) (accountId w) appId of
               Inl e \<Rightarrow> if isAxiosError e \<and> status404 e
                        then [Create (accountId w) appId sgs] else []
             | Inr old \<Rightarrow>
                 if now w + int (latency n (length (calls w))) + 300000 > expiresAt old
                    \<or> \<not> doesTokenHaveAllScopes (Some old) sgs
                 then [Update (accountId w) appId (userTokenKey old) sgs] else [])
        \<and> (\<forall>old. fetchPrivateAppUserToken n (length (calls w)) (accountId w) appId = Inr old
                \<and> \<not> now w + int (latency n (length (calls w))) + 300000 > expiresAt old
                \<and> doesTokenHaveAllScopes (Some old) sgs \<longrightarrow>
              fst (getPrivateAppToken n (cleanup w) appId sgs) = Inr (Some (userTokenKey old))
              \<and> map_of (tokenMap (snd (getPrivateAppToken n (cleanup w) appId sgs))) appId
                  = Some old)
        \<and> (\<forall>k. fst (getPrivateAppToken n (cleanup w) appId sgs) = Inr k \<longrightarrow>
              (\<exists>t h iv. k = Some (userTokenKey t)
                 \<and> map_of (tokenMap (snd (getPrivateAppToken n (cleanup w) appId sgs))) appId = Some t
                 \<and> map_of (tokenMapIntervalId (snd (getPrivateAppToken n (cleanup w) appId sgs))) appId
                     = Some h
                 \<and> (h, iv) \<in> set (intervals (snd (getPrivateAppToken n (cleanup w) appId sgs)))
                 \<and> iv_appId iv = appId)))"
proof -
  have f: "enabled (cleanup w) = enabled w" "accountId (cleanup w) = accountId w"
    "calls (cleanup w) = calls w" "tokenMap (cleanup w) = []" "tokenMapIntervalId (cleanup w) = []"
    "now (cleanup w) = now w"
    "intervals (cleanup w)
       = filter (\<lambda>p. fst p \<notin> snd ` set (tokenMapIntervalId w)) (intervals w)"
    by (simp_all add: cleanup_eq)
  have m: "\<not> doesTokenHaveAllScopes (map_of (tokenMap (cleanup w)) appId) sgs"
    by (simp add: f doesTokenHaveAllScopes_def)
  have 1: "calls (snd (getPrivateAppToken n (cleanup w) appId sgs)) =
          calls w @ Fetch (accountId w) appId #
            (case fetchPrivateAppUserToken n (length (calls w)) (accountId w) appId of
               Inl e \<Rightarrow> if isAxiosError e \<and> status404 e
                        then [Create (accountId w) appId sgs] else []
             | Inr old \<Rightarrow>
                 if now w + int (latency n (length (calls w))) + 300000 > expiresAt old
                    \<or> \<not> doesTokenHaveAllScopes (Some old) sgs
                 then [Update (accountId w) appId (userTokenKey old) sgs] else [])"
    if "enabled w"
    using getPrivateAppToken_miss_requests[OF _ m, of n] that
    by (simp add: f cong: sum.case_cong if_cong)
  have 2: "fst (getPrivateAppToken n (cleanup w) appId sgs) = Inr (Some (userTokenKey old))
              \<and> map_of (tokenMap (snd (getPrivateAppToken n (cleanup w) appId sgs))) appId
                  = Some old"
    if "enabled w" "fetchPrivateAppUserToken n (length (calls w)) (accountId w) appId = Inr old"
      "\<not> now w + int (latency n (length (calls w))) + 300000 > expiresAt old"
      "doesTokenHaveAllScopes (Some old) sgs" for old
    using getPrivateAppToken_miss_reuse[OF _ m, of n old] that by (simp add: f)
  have 3: "\<exists>t h iv. k = Some (userTokenKey t)
                 \<and> map_of (tokenMap (snd (getPrivateAppToken n (cleanup w) appId sgs))) appId = Some t
                 \<and> map_of (tokenMapIntervalId (snd (getPrivateAppToken n (cleanup w) appId sgs))) appId
                     = Some h
                 \<and> (h, iv) \<in> set (intervals (snd (getPrivateAppToken n (cleanup w) appId sgs)))
                 \<and> iv_appId iv = appId"
    if "enabled w" "fst (getPrivateAppToken n (cleanup w) appId sgs) = Inr k" for k
    using getPrivateAppToken_miss_success[OF _ m that(2)] that(1) by (simp add: f)
  show ?thesis using 1 2 3 by (simp add: f isEnabled_def)
qed

theorem cleanup_keeps_enabled_witness:
  "enabled demo_cached
   \<and> isEnabled (cleanup demo_cached)
   \<and> fetchPrivateAppUserToken demo_net (length (calls demo_cached)) (accountId demo_cached) 42
       = Inr \<lparr>userTokenKey = ''k1'', expiresAt = 5000000, scopeGroups = [''read'']\<rparr>
   \<and> doesTokenHaveAllScopes
         (Some \<lparr>userTokenKey = ''k1'', expiresAt = 5000000, scopeGroups = [''read'']\<rparr>) [''read'']
   \<and> fst (getPrivateAppToken demo_net (cleanup demo_cached) 42 [''read'']) = Inr (Some ''k1'')
   \<and> calls (snd (getPrivateAppToken demo_net (cleanup demo_cached) 42 [''read'']))
       = [ScopeCheck 7, Fetch 7 42, Create 7 42 [''read''], Fetch 7 42]
   \<and> enabled demo_enabled
   \<and> calls (snd (getPrivateAppToken demo_net (cleanup demo_enabled) 42 [''read'']))
       = [ScopeCheck 7, Fetch 7 42, Create 7 42 [''read'']]"
proof -
  let ?old = "\<lparr>userTokenKey = ''k1'', expiresAt = 5000000, scopeGroups = [''read'']\<rparr>"
  have a: "enabled demo_cached" by (simp add: demo_cached_eq)
  have b: "enabled demo_enabled" by (simp add: demo_enabled_eq)
  have f: "fetchPrivateAppUserToken demo_net (length (calls demo_cached)) (accountId demo_cached) 42
             = Inr ?old"
    by (simp add: demo_cached_eq demo_net_def)
  have g: "\<And>acc app. fetchPrivateAppUserToken demo_net (Suc 0) acc app
             = Inl (AxiosError (Some 404))"
    by (simp add: demo_net_def)
  have c: "doesTokenHaveAllScopes (Some ?old) [''read'']"
    by (simp add: doesTokenHaveAllScopes_def)
  have v: "accountId demo_cached = 7" "now demo_cached = 1000030"
    "calls demo_cached = [ScopeCheck 7, Fetch 7 42, Create 7 42 [''read'']]"
    "accountId demo_enabled = 7" "calls demo_enabled = [ScopeCheck 7]"
    by (simp_all add: demo_cached_eq demo_enabled_eq)
  have l: "\<And>i. latency demo_net i = 10" by (simp add: demo_net_def)
  show ?thesis
    using a b c f
      cleanup_keeps_enabled[of demo_cached demo_net 42 "[''read'']"]
      cleanup_keeps_enabled[of demo_enabled demo_net 42 "[''read'']"]
    by (simp add: f g v l isEnabled_def)
qed

section \<open>One interval per appId\<close>

lemma distinct_all_equal_length:
  assumes "distinct ys" and "\<forall>y\<in>set ys. y = c"
  shows "length ys \<le> 1"
proof -
  have "set ys \<subseteq> {c}" using assms(2) by auto
  then have "card (set ys) \<le> card {c}" by (intro card_mono) simp_all
  then show ?thesis using distinct_card[OF assms(1)] by simp
qed

lemma timers_registered_at_most_one:
  assumes "timers_registered w"
  shows "length (outstanding w a) \<le> 1"
proof (cases "map_of (tokenMapIntervalId w) a")
  case None
  then have "outstanding w a = []"
    using assms by (auto simp add: timers_registered_def outstanding_def list_all_iff filter_empty_conv)
  then show ?thesis by simp
next
  case (Some h)
  have d: "distinct (map fst (outstanding w a))"
    using assms by (simp add: timers_registered_def outstanding_def distinct_map_filter)
  have e: "\<forall>y\<in>set (map fst (outstanding w a)). y = h"
    using assms Some by (auto simp add: timers_registered_def outstanding_def list_all_iff)
  show ?thesis using distinct_all_equal_length[OF d e] by simp
qed

lemma timers_registered_constructor: "timers_registered (constructor acc t0)"
  by (simp add: timers_registered_def constructor_def)

lemma timers_registered_await: "timers_registered (await n w r) = timers_registered w"
  by (simp add: timers_registered_def await_def)

lemma setCacheAndRefresh_outstanding:
  assumes "timers_registered w"
  shows "outstanding (snd (setCacheAndRefresh w appId (Some t) sgs)) appId
           = [(nextTimeoutId w, Interval appId (userTokenKey t) sgs (refreshDelayMillis (now w) t))]"
proof -
  have "filter (\<lambda>p. iv_appId (snd p) = appId)
          (filter (\<lambda>p. Some (fst p) \<noteq> map_of (tokenMapIntervalId w) appId) (intervals w)) = []"
    using assms by (auto simp add: timers_registered_def list_all_iff filter_empty_conv)
  then show ?thesis
    by (simp add: outstanding_def setCacheAndRefresh_Some)
qed

lemma setCacheAndRefresh_registered:
  assumes "timers_registered w"
  shows "timers_registered (snd (setCacheAndRefresh w appId (Some t) sgs))"
proof -
  let ?old = "filter (\<lambda>p. Some (fst p) \<noteq> map_of (tokenMapIntervalId w) appId) (intervals w)"
  let ?new = "(nextTimeoutId w, Interval appId (userTokenKey t) sgs (refreshDelayMillis (now w) t))"
  let ?w' = "snd (setCacheAndRefresh w appId (Some t) sgs)"
  let ?ok = "\<lambda>p. fst p < nextTimeoutId ?w'
                 \<and> map_of (tokenMapIntervalId ?w') (iv_appId (snd p)) = Some (fst p)"
  have d: "distinct (map fst (intervals w))"
    and a: "\<forall>p\<in>set (intervals w). fst p < nextTimeoutId w
              \<and> map_of (tokenMapIntervalId w) (iv_appId (snd p)) = Some (fst p)"
    using assms by (simp_all add: timers_registered_def list_all_iff)
  have i: "intervals ?w' = ?old @ [?new]"
    and n: "nextTimeoutId ?w' = Suc (nextTimeoutId w)"
    and m: "tokenMapIntervalId ?w' = AList.update appId (nextTimeoutId w) (tokenMapIntervalId w)"
    by (simp_all add: setCacheAndRefresh_Some)
  have fresh: "nextTimeoutId w \<notin> fst ` set ?old" using a by auto
  have d': "distinct (map fst (intervals ?w'))"
    unfolding i using d fresh by (simp add: distinct_map_filter)
  have old: "?ok p" if "p \<in> set ?old" for p
  proof -
    from that have p: "p \<in> set (intervals w)"
      and h: "Some (fst p) \<noteq> map_of (tokenMapIntervalId w) appId" by simp_all
    from a p have lt: "fst p < nextTimeoutId w"
      and r: "map_of (tokenMapIntervalId w) (iv_appId (snd p)) = Some (fst p)" by simp_all
    from r h have "iv_appId (snd p) \<noteq> appId" by auto
    then show ?thesis using lt r by (simp add: n m update_conv')
  qed
  have new: "?ok ?new" by (simp add: n m update_conv')
  have "list_all ?ok (intervals ?w')"
    unfolding i list_all_iff using old new by auto
  then show ?thesis
    unfolding timers_registered_def using d' by blast
qed

lemma setCacheAndRefreshAll_registered:
  "timers_registered w \<Longrightarrow> timers_registered (setCacheAndRefreshAll w appId arms)"
  by (induction arms arbitrary: w) (simp_all add: setCacheAndRefresh_registered)

lemma setCacheAndRefreshAll_outstanding:
  "timers_registered w \<Longrightarrow> arms \<noteq> [] \<Longrightarrow>
     length (outstanding (setCacheAndRefreshAll w appId arms) appId) = 1"
proof (induction arms arbitrary: w)
  case Nil
  then show ?case by simp
next
  case (Cons a arms)
  let ?w1 = "snd (setCacheAndRefresh w appId (Some (fst a)) (snd a))"
  have r: "timers_registered ?w1" using Cons.prems(1) by (rule setCacheAndRefresh_registered)
  show ?case
  proof (cases arms)
    case Nil
    then show ?thesis
      by (simp add: setCacheAndRefresh_outstanding[OF Cons.prems(1)])
  next
    case (Cons b bs)
    then have "arms \<noteq> []" by simp
    from Cons.IH[OF r this] show ?thesis by simp
  qed
qed

lemma init_registered: "timers_registered w \<Longrightarrow> timers_registered (snd (init n w))"
  by (simp add: init_def Let_def timers_registered_def await_def split: sum.splits)

lemma getExistingToken_world:
  "snd (getExistingToken n w appId) = await n w (Fetch (accountId w) appId)"
  by (simp add: getExistingToken_def Let_def split: sum.splits)

lemma createOrGetActiveToken_registered:
  "timers_registered w \<Longrightarrow> timers_registered (snd (createOrGetActiveToken n w appId sgs))"
  using getExistingToken_world[of n w appId]
  by (auto simp add: createOrGetActiveToken_def timers_registered_await
      split: prod.splits sum.splits option.splits)

lemma setCacheAndRefresh_registered_any:
  "timers_registered w \<Longrightarrow> timers_registered (snd (setCacheAndRefresh w appId token sgs))"
  by (cases token) (simp_all add: setCacheAndRefresh_None setCacheAndRefresh_registered)

lemma getPrivateAppToken_registered:
  assumes "timers_registered w"
  shows "timers_registered (snd (getPrivateAppToken n w appId sgs))"
proof -
  obtain r w1 where c: "createOrGetActiveToken n w appId sgs = (r, w1)"
    by (cases "createOrGetActiveToken n w appId sgs")
  have r1: "timers_registered w1"
    using createOrGetActiveToken_registered[OF assms, of n appId sgs] by (simp add: c)
  show ?thesis
  proof (cases r)
    case (Inl e)
    then show ?thesis using assms r1 by (simp add: getPrivateAppToken_def c)
  next
    case (Inr token)
    obtain r2 w2 where s: "setCacheAndRefresh w1 appId token sgs = (r2, w2)"
      by (cases "setCacheAndRefresh w1 appId token sgs")
    have "timers_registered w2"
      using setCacheAndRefresh_registered_any[OF r1, of appId token sgs] by (simp add: s)
    then show ?thesis using assms Inr by (simp add: getPrivateAppToken_def c s split: sum.splits)
  qed
qed

lemma fire_registered:
  assumes "timers_registered w"
  shows "timers_registered (snd (fire n w h))"
proof (cases "map_of (intervals w) h")
  case None
  then show ?thesis using assms by (simp add: fire_def)
next
  case (Some cb)
  have "timers_registered (await n w (Update (accountId w) (iv_appId cb) (iv_userTokenKey cb) (iv_scopeGroups cb)))"
    using assms by (simp add: timers_registered_await)
  then show ?thesis
    using Some
    by (simp add: fire_def refreshToken_def refreshToken_resume_def setCacheAndRefresh_registered
        split: sum.splits option.splits)
qed

lemma setCacheAndRefresh_cancels:
  assumes "timers_registered w" and "p \<in> set (outstanding w appId)"
  shows "p \<notin> set (intervals (snd (setCacheAndRefresh w appId (Some t) sgs)))"
proof -
  from assms(2) have p: "p \<in> set (intervals w)" and k: "iv_appId (snd p) = appId"
    by (simp_all add: outstanding_def)
  from assms(1) p have lt: "fst p < nextTimeoutId w"
    and r: "map_of (tokenMapIntervalId w) (iv_appId (snd p)) = Some (fst p)"
    by (simp_all add: timers_registered_def list_all_iff)
  have "p \<noteq> (nextTimeoutId w, Interval appId (userTokenKey t) sgs (refreshDelayMillis (now w) t))"
    using lt by auto
  then show ?thesis using r k by (simp add: setCacheAndRefresh_Some)
qed

lemma setCacheAndRefresh_clock:
  "nextTimeoutId (snd (setCacheAndRefresh w appId (Some t) sgs)) = Suc (nextTimeoutId w)
   \<and> now (snd (setCacheAndRefresh w appId (Some t) sgs)) = now w"
  by (simp add: setCacheAndRefresh_Some)

lemma setCacheAndRefreshAll_survivor:
  "timers_registered w \<Longrightarrow> arms \<noteq> [] \<Longrightarrow>
     outstanding (setCacheAndRefreshAll w appId arms) appId
       = [(nextTimeoutId w + length arms - 1,
           Interval appId (userTokenKey (fst (last arms))) (snd (last arms))
             (refreshDelayMillis (now w) (fst (last arms))))]"
proof (induction arms arbitrary: w)
  case Nil
  then show ?case by simp
next
  case (Cons a arms)
  let ?w1 = "snd (setCacheAndRefresh w appId (Some (fst a)) (snd a))"
  have r: "timers_registered ?w1" using Cons.prems(1) by (rule setCacheAndRefresh_registered)
  show ?case
  proof (cases "arms = []")
    case True
    then show ?thesis
      by (simp add: setCacheAndRefresh_outstanding[OF Cons.prems(1)])
  next
    case False
    from Cons.IH[OF r False] False show ?thesis
      by (simp add: setCacheAndRefresh_clock)
  qed
qed

lemma setCacheAndRefreshAll_registers:
  "arms \<noteq> [] \<Longrightarrow>
     map_of (tokenMapIntervalId (setCacheAndRefreshAll w appId arms)) appId
       = Some (nextTimeoutId w + length arms - 1)"
proof (induction arms arbitrary: w)
  case Nil
  then show ?case by simp
next
  case (Cons a arms)
  show ?case
  proof (cases "arms = []")
    case True
    then show ?thesis by (simp add: setCacheAndRefresh_Some map_of_update_same)
  next
    case False
    from Cons.IH[OF False, of "snd (setCacheAndRefresh w appId (Some (fst a)) (snd a))"] False
    show ?thesis by (simp add: setCacheAndRefresh_clock)
  qed
qed

text \<open>
  C7. In a world whose timer map is in order (as it is for a new manager, and stays under
  every operation of the manager), a \<^verbatim>\<open>setCacheAndRefresh\<close> call for \<open>appId\<close> cancels
  every interval that was live for \<open>appId\<close> and leaves exactly one, the interval it arms.
  After any positive number of consecutive calls for \<open>appId\<close> the one interval live for
  \<open>appId\<close> is the interval of the last call, registered in the timer map; and no appId
  has more than one.
\<close>

theorem one_interval_per_appId:
  assumes "timers_registered w"
  shows "(\<forall>p\<in>set (outstanding w appId).
            p \<notin> set (intervals (snd (setCacheAndRefresh w appId (Some t) sgs))))
         \<and> outstanding (snd (setCacheAndRefresh w appId (Some t) sgs)) appId
             = [(nextTimeoutId w,
                 Interval appId (userTokenKey t) sgs (refreshDelayMillis (now w) t))]
         \<and> (arms \<noteq> [] \<longrightarrow>
              outstanding (setCacheAndRefreshAll w appId arms) appId
                = [(nextTimeoutId w + length arms - 1,
                    Interval appId (userTokenKey (fst (last arms))) (snd (last arms))
                      (refreshDelayMillis (now w) (fst (last arms))))]
              \<and> map_of (tokenMapIntervalId (setCacheAndRefreshAll w appId arms)) appId
                  = Some (nextTimeoutId w + length arms - 1)
              \<and> length (outstanding (setCacheAndRefreshAll w appId arms) appId) = 1)
         \<and> length (outstanding (setCacheAndRefreshAll w appId arms) other) \<le> 1"
proof -
  have 1: "\<forall>p\<in>set (outstanding w appId).
            p \<notin> set (intervals (snd (setCacheAndRefresh w appId (Some t) sgs)))"
    using setCacheAndRefresh_cancels[OF assms] by blast
  have 2: "length (outstanding (setCacheAndRefreshAll w appId arms) other) \<le> 1"
    by (rule timers_registered_at_most_one[OF setCacheAndRefreshAll_registered[OF assms]])
  show ?thesis
    using 1 2 setCacheAndRefresh_outstanding[OF assms, of appId t sgs]
      setCacheAndRefreshAll_survivor[OF assms, of arms appId]
      setCacheAndRefreshAll_registers[of arms w appId]
    by simp
qed

theorem one_interval_per_appId_witness:
  "timers_registered demo_cached
   \<and> outstanding demo_cached 42 = [(0, Interval 42 ''k1'' [''read''] 3699970)]
   \<and> (0, Interval 42 ''k1'' [''read''] 3699970)
       \<notin> set (intervals (snd (setCacheAndRefresh demo_cached 42
            (Some \<lparr>userTokenKey = ''k2'', expiresAt = 9000000, scopeGroups = [''read'']\<rparr>)
            [''read''])))
   \<and> outstanding (snd (setCacheAndRefresh demo_cached 42
          (Some \<lparr>userTokenKey = ''k2'', expiresAt = 9000000, scopeGroups = [''read'']\<rparr>)
          [''read''])) 42
       = [(1, Interval 42 ''k2'' [''read''] 7699970)]
   \<and> outstanding (setCacheAndRefreshAll demo_cached 42
          [(\<lparr>userTokenKey = ''k2'', expiresAt = 9000000, scopeGroups = [''read'']\<rparr>, [''read'']),
           (\<lparr>userTokenKey = ''k3'', expiresAt = 9500000, scopeGroups = [''read'', ''write'']\<rparr>,
            [''read'', ''write''])]) 42
       = [(2, Interval 42 ''k3'' [''read'', ''write''] 8199970)]"
proof -
  have r: "timers_registered demo_cached"
    by (simp add: demo_cached_eq timers_registered_def)
  have o: "outstanding demo_cached 42 = [(0, Interval 42 ''k1'' [''read''] 3699970)]"
    by (simp add: demo_cached_eq outstanding_def)
  have f: "nextTimeoutId demo_cached = 1" "now demo_cached = 1000030"
    by (simp_all add: demo_cached_eq)
  show ?thesis
    using r o
      one_interval_per_appId[OF r, of 42 "\<lparr>userTokenKey = ''k2'', expiresAt = 9000000, scopeGroups = [''read'']\<rparr>"
        "[''read'']"
        "[(\<lparr>userTokenKey = ''k2'', expiresAt = 9000000, scopeGroups = [''read'']\<rparr>, [''read'']),
          (\<lparr>userTokenKey = ''k3'', expiresAt = 9500000, scopeGroups = [''read'', ''write'']\<rparr>,
           [''read'', ''write''])]" 43]
    by (simp add: f refreshDelayMillis_def)
qed

section \<open>Account-level authentication\<close>

text \<open>
  C8, as the claim states it, fails: the API-key account 7 has no stored key, and account
  6 has an auth type that is none of the three strategies; \<^verbatim>\<open>withAuth\<close> answers both
  with a request, carrying \<open>hapikey\<close> (undefined for account 7).
\<close>

theorem withAuth_defaults_to_api_key:
  "map_option acc_authType (getAccount demo_config (Some (Num 7))) = Some (Some ''apikey'')
   \<and> map_option acc_apiKey (getAccount demo_config (Some (Num 7))) = Some None
   \<and> withAuth demo_config demo_options demo_pak demo_oauth 7 ()
       = Inr \<lparr>headers = [], qs = [(''portalId'', QNum 7), (''hapikey'', QUndefined)]\<rparr>
   \<and> map_option acc_authType (getAccount demo_config (Some (Num 6))) = Some (Some ''sso'')
   \<and> withAuth demo_config demo_options demo_pak demo_oauth 6 ()
       = Inr \<lparr>headers = [], qs = [(''portalId'', QNum 6), (''hapikey'', QStr ''key-6'')]\<rparr>"
  by (simp add: demo_config_def getAccount_def withAuth_def withPortalId_def demo_options_def)

text \<open>
  C8, amended. \<^verbatim>\<open>withAuth\<close> fails when no account is configured for the id, and, for
  an OAuth2 account, when no OAuth manager can be built. An account whose auth type is
  neither \<open>personalaccesskey\<close> nor \<open>oauth2\<close> is treated as an API-key account: the request
  carries \<open>hapikey\<close> with the stored key, undefined when there is none.
\<close>

theorem withAuth_outcomes:
  "(getAccount config (Some (Num accId)) = None \<longrightarrow>
      withAuth config gro pak gom accId opts = Inl (WithAuthError accId))
   \<and> (\<forall>a. getAccount config (Some (Num accId)) = Some a \<longrightarrow>
        (acc_authType a = Some ''oauth2'' \<and> gom accId a = None \<longrightarrow>
           withAuth config gro pak gom accId opts = Inl (WithOauthError accId))
        \<and> (acc_authType a \<noteq> Some ''personalaccesskey'' \<and> acc_authType a \<noteq> Some ''oauth2'' \<longrightarrow>
             withAuth config gro pak gom accId opts
               = Inr ((withPortalId accId (gro (acc_env a) opts))
                       \<lparr>qs := AList.update ''hapikey''
                                (case acc_apiKey a of None \<Rightarrow> QUndefined | Some k \<Rightarrow> QStr k)
                                (qs (withPortalId accId (gro (acc_env a) opts)))\<rparr>)))"
  by (simp add: withAuth_def withOauth_def Let_def)

theorem withAuth_outcomes_witness:
  "getAccount demo_config (Some (Num 9)) = None
   \<and> withAuth demo_config demo_options demo_pak demo_oauth 9 () = Inl (WithAuthError 9)
   \<and> map_option acc_authType (getAccount demo_config (Some (Num 8))) = Some (Some ''oauth2'')
   \<and> withAuth demo_config demo_options demo_pak demo_oauth 8 () = Inl (WithOauthError 8)
   \<and> map_option acc_authType (getAccount demo_config (Some (Num 7))) = Some (Some ''apikey'')
   \<and> withAuth demo_config demo_options demo_pak demo_oauth 7 ()
       = Inr \<lparr>headers = [], qs = [(''portalId'', QNum 7), (''hapikey'', QUndefined)]\<rparr>"
proof -
  have g9: "getAccount demo_config (Some (Num 9)) = None"
    by (simp add: demo_config_def getAccount_def)
  have g8: "getAccount demo_config (Some (Num 8))
              = Some \<lparr>acc_name = Some ''ops'', acc_accountId = 8, acc_env = None,
                      acc_authType = Some ''oauth2'', acc_apiKey = None\<rparr>"
    by (simp add: demo_config_def getAccount_def)
  have g7: "getAccount demo_config (Some (Num 7))
              = Some \<lparr>acc_name = Some ''dev'', acc_accountId = 7, acc_env = None,
                      acc_authType = Some ''apikey'', acc_apiKey = None\<rparr>"
    by (simp add: demo_config_def getAccount_def)
  show ?thesis
    using withAuth_outcomes[of demo_config 9 demo_options demo_pak demo_oauth "()"]
      withAuth_outcomes[of demo_config 8 demo_options demo_pak demo_oauth "()"]
      withAuth_outcomes[of demo_config 7 demo_options demo_pak demo_oauth "()"]
    by (simp add: g9 g8 g7 demo_oauth_def withPortalId_def demo_options_def)
qed

end
